theory Spec2Isabelle
  imports Complex_Main "HOL-Library.Log_Nat"
begin

section \<open>Data model\<close>

text \<open>
  A puzzle of the application is an object
  \<^verbatim>\<open>{ id, title, blocks: [{id, latex}], solutionOrder: [id, ...] }\<close>
  (see \<^verbatim>\<open>src/puzzles/bigOProofs.js\<close>). Block ids are JavaScript strings.
  The field \<^verbatim>\<open>id\<close> is written \<open>block_id\<close> and \<open>puzzle_id\<close> here,
  since \<open>id\<close> is the identity function of HOL.
\<close>

record block =
  block_id :: string
  latex :: string

record puzzle =
  puzzle_id :: string
  title :: string
  blocks :: "block list"
  solutionOrder :: "string list"

text \<open>
  The instance state of \<^verbatim>\<open>ProofValidator\<close>: the three fields its constructor
  assigns. \<^verbatim>\<open>this.solutionOrder\<close> is the field \<open>this_solutionOrder\<close>.
\<close>

record validator =
  this_puzzle :: puzzle
  this_solutionOrder :: "string list"
  blockMap :: "string \<rightharpoonup> block"

text \<open>
  The only error kind the specification names. The source has no \<^verbatim>\<open>throw\<close>
  statement at all.
\<close>

datatype error = InvalidPuzzleError

text \<open>
  JavaScript numbers as far as the score computation can produce them: the quotient
  of two array lengths is \<^verbatim>\<open>NaN\<close> for \<^verbatim>\<open>0/0\<close>, \<^verbatim>\<open>Infinity\<close> for
  \<^verbatim>\<open>n/0\<close> with \<^verbatim>\<open>n > 0\<close>, and a finite double otherwise. A finite double is
  represented by the rational it denotes.
\<close>

datatype jsnum = NaN | Infinity | Num rat

text \<open>Entries of \<^verbatim>\<open>correctlyPositioned\<close>, \<^verbatim>\<open>duplicates\<close>: \<^verbatim>\<open>{blockId, position}\<close>.\<close>

datatype placed = Placed string nat

text \<open>Entries of \<^verbatim>\<open>incorrectlyPositioned\<close>: \<^verbatim>\<open>{blockId, position, expectedBlockId}\<close>.\<close>

datatype misplaced = Misplaced string nat string

fun misplaced_position :: "misplaced \<Rightarrow> nat" where
  "misplaced_position (Misplaced b i e) = i"

fun misplaced_expectedBlockId :: "misplaced \<Rightarrow> string" where
  "misplaced_expectedBlockId (Misplaced b i e) = e"

text \<open>The object \<^verbatim>\<open>_analyzeSequence\<close> returns.\<close>

record analysis =
  totalBlocks :: nat
  userBlocks :: nat
  correctBlocks :: nat
  extraBlocks :: nat
  missingBlocks :: nat
  isComplete :: bool
  correctSequence :: bool
  correctlyPositioned :: "placed list"
  incorrectlyPositioned :: "misplaced list"
  duplicates :: "placed list"

text \<open>
  The \<^verbatim>\<open>details\<close> objects of the two early returns of \<^verbatim>\<open>validateProof\<close>:
  five counts; the mismatch return adds \<^verbatim>\<open>puzzleMismatch: true\<close> and the
  list \<^verbatim>\<open>invalidBlocks\<close>.
\<close>

record counts =
  c_totalBlocks :: nat
  c_correctBlocks :: nat
  c_incorrectBlocks :: nat
  c_missingBlocks :: nat
  c_extraBlocks :: nat

datatype details =
    PromptDetails counts
  | MismatchDetails counts "string list"
  | Analysis analysis

datatype hint_type = position_hint | missing_hint | next_hint | error_hint

text \<open>
  A hint object. The \<^verbatim>\<open>position\<close> hints carry \<^verbatim>\<open>position\<close> and
  \<^verbatim>\<open>expectedBlockId\<close>, the others carry \<^verbatim>\<open>blockId\<close>; a field that an
  object does not have, or that is \<^verbatim>\<open>null\<close>, is \<open>None\<close>.
\<close>

record hint =
  hint_type :: hint_type
  message :: string
  hint_latex :: string
  hint_position :: "nat option"
  expectedBlockId :: "string option"
  blockId :: "string option"

text \<open>
  The object \<^verbatim>\<open>validateProof\<close> returns. The return for an empty order has no
  \<^verbatim>\<open>hints\<close> field: \<open>hints\<close> is \<open>None\<close> there.
\<close>

record validation =
  isCorrect :: bool
  score :: jsnum
  feedback :: string
  details :: details
  hints :: "hint list option"

record block_validation =
  isValid :: bool
  invalidBlocks :: "string list"
  validBlocks :: "string list"
  puzzleId :: string
  puzzleTitle :: string

section \<open>Construction\<close>

text \<open>
  \<^verbatim>\<open>new Map(puzzle.blocks.map(block => [block.id, block]))\<close>: when two blocks
  share an id the later entry replaces the earlier one, so the association list is
  searched from its end.
\<close>

definition ProofValidator :: "puzzle \<Rightarrow> validator" where
  "ProofValidator p =
     \<lparr> this_puzzle = p,
       this_solutionOrder = solutionOrder p,
       blockMap = map_of (rev (map (\<lambda>b. (block_id b, b)) (blocks p))) \<rparr>"

text \<open>
  The expression \<^verbatim>\<open>new ProofValidator(puzzle)\<close> with its outcome made explicit:
  \<open>Inl\<close> an error thrown, \<open>Inr\<close> the validator. The constructor body is three
  assignments and nothing in it throws for a puzzle object with its \<^verbatim>\<open>blocks\<close>
  and \<^verbatim>\<open>solutionOrder\<close> arrays.
\<close>

definition new_ProofValidator :: "puzzle \<Rightarrow> error + validator" where
  "new_ProofValidator p = Inr (ProofValidator p)"

section \<open>Block id validation\<close>

definition validateBlockIds :: "validator \<Rightarrow> string list \<Rightarrow> block_validation" where
  "validateBlockIds this userOrder =
     (let validBlockIds = set (map block_id (blocks (this_puzzle this)));
          invalid = filter (\<lambda>i. i \<notin> validBlockIds) userOrder;
          valid = filter (\<lambda>i. i \<in> validBlockIds) userOrder
      in \<lparr> isValid = (length invalid = 0),
           invalidBlocks = invalid,
           validBlocks = valid,
           puzzleId = puzzle_id (this_puzzle this),
           puzzleTitle = title (this_puzzle this) \<rparr>)"

section \<open>Sequence analysis\<close>

text \<open>
  \<^verbatim>\<open>_isCorrectSequence(userOrder, start, end)\<close>: the loop returns false at the first
  index that is outside the solution or where the two arrays differ. Reading
  \<^verbatim>\<open>userOrder[i]\<close> beyond the array gives \<^verbatim>\<open>undefined\<close>, which differs from
  every string.
\<close>

definition isCorrectSequence :: "validator \<Rightarrow> string list \<Rightarrow> nat \<Rightarrow> nat \<Rightarrow> bool" where
  "isCorrectSequence this userOrder start end' =
     list_all (\<lambda>i. \<not> (i \<ge> length (this_solutionOrder this)
                       \<or> i \<ge> length userOrder
                       \<or> userOrder ! i \<noteq> this_solutionOrder this ! i))
       [start ..< end']"

text \<open>
  \<^verbatim>\<open>_findDuplicates\<close>: the \<^verbatim>\<open>forEach\<close> with its set \<^verbatim>\<open>seen\<close> and the index
  passed along.
\<close>

fun findDuplicates_from :: "string set \<Rightarrow> nat \<Rightarrow> string list \<Rightarrow> placed list" where
  "findDuplicates_from seen index [] = []"
| "findDuplicates_from seen index (b # rest) =
     (if b \<in> seen then Placed b index # findDuplicates_from seen (Suc index) rest
      else findDuplicates_from (insert b seen) (Suc index) rest)"

definition findDuplicates :: "string list \<Rightarrow> placed list" where
  "findDuplicates userOrder = findDuplicates_from {} 0 userOrder"

text \<open>
  \<^verbatim>\<open>_analyzeSequence\<close>. The spread of a \<^verbatim>\<open>Set\<close> lists each element once
  (\<open>remdups\<close>); only the lengths of the filtered arrays are used. The loop over
  \<^verbatim>\<open>i < Math.min(userOrder.length, solutionOrder.length)\<close> pushes each index on one
  of two arrays.
\<close>

definition analyzeSequence :: "validator \<Rightarrow> string list \<Rightarrow> analysis" where
  "analyzeSequence this userOrder =
     (let sol = this_solutionOrder this;
          solutionSet = remdups sol;
          userSet = remdups userOrder;
          correctBlocksInSolution = length (filter (\<lambda>i. i \<in> set solutionSet) userSet);
          extra = length (filter (\<lambda>i. i \<notin> set solutionSet) userSet);
          missing = length (filter (\<lambda>i. i \<notin> set userSet) solutionSet);
          complete = (length userOrder = length sol \<and> missing = 0 \<and> extra = 0);
          correctSeq = (complete \<and> isCorrectSequence this userOrder 0 (length userOrder));
          range = [0 ..< min (length userOrder) (length sol)]
      in \<lparr> totalBlocks = length sol,
           userBlocks = length userOrder,
           correctBlocks = correctBlocksInSolution,
           extraBlocks = extra,
           missingBlocks = missing,
           isComplete = complete,
           correctSequence = correctSeq,
           correctlyPositioned =
             map (\<lambda>i. Placed (userOrder ! i) i)
               (filter (\<lambda>i. userOrder ! i = sol ! i) range),
           incorrectlyPositioned =
             map (\<lambda>i. Misplaced (userOrder ! i) i (sol ! i))
               (filter (\<lambda>i. userOrder ! i \<noteq> sol ! i) range),
           duplicates = findDuplicates userOrder \<rparr>)"

section \<open>Scoring\<close>

subsection \<open>Double-precision arithmetic\<close>

text \<open>
  A JavaScript number is an IEEE 754 double: every division, multiplication, addition
  and subtraction returns the double nearest to the exact result, a tie going to the
  double with an even significand. Doubles are represented by the rationals they denote.
  The exponent range is not modelled: the numbers the score computation produces from
  array lengths (below \<open>2^32\<close>) are zero or lie between \<open>2^-52\<close> and \<open>2^7\<close> in absolute
  value, far from overflow and from the subnormal numbers.
\<close>

text \<open>For \<open>x > 0\<close>, the integer \<open>e\<close> with \<open>2^e \<le> x < 2^(e+1)\<close> (lemma \<open>exponent_bounds\<close>).\<close>

definition exponent :: "rat \<Rightarrow> int" where
  "exponent x =
     (let (p, q) = quotient_of x;
          k = bitlen p - bitlen q
      in if 2 powi k \<le> x then k else k - 1)"

text \<open>The nearest integer, a tie going to the even one.\<close>

definition round_even :: "rat \<Rightarrow> int" where
  "round_even m =
     (let f = \<lfloor>m\<rfloor>; d = m - of_int f
      in if d < 1 / 2 then f
         else if 1 / 2 < d then f + 1
         else if even f then f else f + 1)"

text \<open>
  The double nearest to a rational: the rational is scaled to a significand between
  \<open>2^52\<close> and \<open>2^53\<close>, which is rounded to an integer of 53 bits.
\<close>

definition to_double :: "rat \<Rightarrow> rat" where
  "to_double x =
     (if x = 0 then 0
      else let e = exponent \<bar>x\<bar> - 52
           in sgn x * of_int (round_even (\<bar>x\<bar> / 2 powi e)) * 2 powi e)"

subsection \<open>The operations of the score computation\<close>

text \<open>Division of one array length by another.\<close>

definition js_div :: "nat \<Rightarrow> nat \<Rightarrow> jsnum" where
  "js_div a b = (if b = 0 then (if a = 0 then NaN else Infinity)
                 else Num (to_double (of_nat a / of_nat b)))"

text \<open>Multiplication by a positive constant.\<close>

fun js_times :: "jsnum \<Rightarrow> rat \<Rightarrow> jsnum" where
  "js_times NaN c = NaN"
| "js_times Infinity c = Infinity"
| "js_times (Num x) c = Num (to_double (x * c))"

fun js_plus :: "jsnum \<Rightarrow> jsnum \<Rightarrow> jsnum" where
  "js_plus NaN y = NaN"
| "js_plus x NaN = NaN"
| "js_plus Infinity y = Infinity"
| "js_plus x Infinity = Infinity"
| "js_plus (Num x) (Num y) = Num (to_double (x + y))"

text \<open>Subtraction of a finite number.\<close>

fun js_minus :: "jsnum \<Rightarrow> rat \<Rightarrow> jsnum" where
  "js_minus NaN c = NaN"
| "js_minus Infinity c = Infinity"
| "js_minus (Num x) c = Num (to_double (x - c))"

text \<open>
  \<^verbatim>\<open>Math.round\<close>: the integer nearest to its argument, a half rounded towards plus
  infinity; the result is exact.
\<close>

fun Math_round :: "jsnum \<Rightarrow> jsnum" where
  "Math_round NaN = NaN"
| "Math_round Infinity = Infinity"
| "Math_round (Num x) = Num (of_int \<lfloor>x + 1 / 2\<rfloor>)"

text \<open>\<^verbatim>\<open>Math.max(0, y)\<close>: \<^verbatim>\<open>NaN\<close> if an argument is \<^verbatim>\<open>NaN\<close>.\<close>

fun Math_max0 :: "jsnum \<Rightarrow> jsnum" where
  "Math_max0 NaN = NaN"
| "Math_max0 Infinity = Infinity"
| "Math_max0 (Num y) = Num (max 0 y)"

definition calculateScore :: "analysis \<Rightarrow> jsnum" where
  "calculateScore result =
     (if correctSequence result then Num 100
      else
        let positionScore =
              js_times (js_div (length (correctlyPositioned result)) (totalBlocks result)) 60;
            presenceScore =
              js_times (js_div (correctBlocks result) (totalBlocks result)) 40;
            extraPenalty = min (of_nat (extraBlocks result) * 5) 20
        in Math_max0 (Math_round (js_minus (js_plus positionScore presenceScore) extraPenalty)))"

section \<open>Feedback text\<close>

text \<open>Template literals print a number in decimal.\<close>

definition digit_char :: "nat \<Rightarrow> char" where
  "digit_char d = char_of (48 + d)"

fun string_of_nat :: "nat \<Rightarrow> string" where
  "string_of_nat n =
     (if n < 10 then [digit_char n]
      else string_of_nat (n div 10) @ [digit_char (n mod 10)])"

text \<open>
  The pictographs that open the messages of the source, as the bytes of their UTF-8
  encoding in the source file.
\<close>

definition party_popper :: string where
  "party_popper = [CHR 0xF0, CHR 0x9F, CHR 0x8E, CHR 0x89]"

definition cross_mark :: string where
  "cross_mark = [CHR 0xE2, CHR 0x9D, CHR 0x8C]"

definition warning_sign :: string where
  "warning_sign = [CHR 0xE2, CHR 0x9A, CHR 0xA0, CHR 0xEF, CHR 0xB8, CHR 0x8F]"

definition arrows_sign :: string where
  "arrows_sign = [CHR 0xF0, CHR 0x9F, CHR 0x94, CHR 0x84]"

definition pushpin :: string where
  "pushpin = [CHR 0xF0, CHR 0x9F, CHR 0x93, CHR 0x8D]"

definition check_mark :: string where
  "check_mark = [CHR 0xE2, CHR 0x9C, CHR 0x85]"

text \<open>\<^verbatim>\<open>Array.prototype.join(' ')\<close>.\<close>

fun join_space :: "string list \<Rightarrow> string" where
  "join_space [] = []"
| "join_space [s] = s"
| "join_space (s # t # rest) = s @ '' '' @ join_space (t # rest)"

definition generateFeedback :: "analysis \<Rightarrow> string" where
  "generateFeedback result =
     (if correctSequence result
      then party_popper @ '' Excellent! Your proof is completely correct!''
      else
        let f1 = (if missingBlocks result > 0
                  then [cross_mark @ '' Missing '' @ string_of_nat (missingBlocks result)
                          @ '' block(s) from your proof.'']
                  else []);
            f2 = (if extraBlocks result > 0
                  then [warning_sign @ '' You have '' @ string_of_nat (extraBlocks result)
                          @ '' extra or incorrect block(s).'']
                  else []);
            f3 = (if length (duplicates result) > 0
                  then [arrows_sign @ '' You have ''
                          @ string_of_nat (length (duplicates result))
                          @ '' duplicate block(s).'']
                  else []);
            f4 = (if length (incorrectlyPositioned result) > 0
                  then [pushpin @ '' ''
                          @ string_of_nat (length (incorrectlyPositioned result))
                          @ '' block(s) are in the wrong position.'']
                  else []);
            f5 = (if length (correctlyPositioned result) > 0
                  then [check_mark @ '' ''
                          @ string_of_nat (length (correctlyPositioned result))
                          @ '' block(s) are correctly positioned.'']
                  else []);
            clauses = f1 @ f2 @ f3 @ f4 @ f5
        in if length clauses > 0 then join_space clauses
           else ''Keep working on your proof!'')"

section \<open>Next expected block\<close>

text \<open>
  The second loop of \<^verbatim>\<open>getNextExpectedBlock\<close>: the solution entry at the first
  index where the two arrays differ. Past the end of the solution the source reads
  \<^verbatim>\<open>undefined\<close> and returns it; \<open>None\<close> stands for \<^verbatim>\<open>null\<close> and
  \<^verbatim>\<open>undefined\<close> alike.
\<close>

fun firstIncorrect :: "string list \<Rightarrow> string list \<Rightarrow> string option" where
  "firstIncorrect [] sol = None"
| "firstIncorrect (c # cs) [] = None"
| "firstIncorrect (c # cs) (s # ss) = (if c \<noteq> s then Some s else firstIncorrect cs ss)"

definition getNextExpectedBlock :: "validator \<Rightarrow> string list \<Rightarrow> string option" where
  "getNextExpectedBlock this currentOrder =
     (if length currentOrder \<ge> length (this_solutionOrder this) then None
      else if isCorrectSequence this currentOrder 0 (length currentOrder)
      then Some (this_solutionOrder this ! length currentOrder)
      else firstIncorrect currentOrder (this_solutionOrder this))"

section \<open>Hint generation\<close>

text \<open>
  \<^verbatim>\<open>_generateHints\<close> pushes on the array \<^verbatim>\<open>hints\<close> and adds to the set
  \<^verbatim>\<open>usedBlocks\<close>; each of its four blocks is a function from the pair of the two
  to the updated pair.
\<close>

type_synonym hint_state = "hint list \<times> string set"

definition mismatchHint :: hint where
  "mismatchHint =
     \<lparr> hint_type = error_hint,
       message = ''Please refresh the page - there seems to be a puzzle mismatch.'',
       hint_latex = [],
       hint_position = None, expectedBlockId = None, blockId = None \<rparr>"

definition positionHint :: "misplaced \<Rightarrow> block \<Rightarrow> hint" where
  "positionHint firstError expectedBlock =
     \<lparr> hint_type = position_hint,
       message = ''The block at position ''
                 @ string_of_nat (misplaced_position firstError + 1) @ '' should be:'',
       hint_latex = latex expectedBlock,
       hint_position = Some (misplaced_position firstError),
       expectedBlockId = Some (misplaced_expectedBlockId firstError),
       blockId = None \<rparr>"

definition blockHint :: "hint_type \<Rightarrow> string \<Rightarrow> block \<Rightarrow> string \<Rightarrow> hint" where
  "blockHint ty msg b i =
     \<lparr> hint_type = ty, message = msg, hint_latex = latex b,
       hint_position = None, expectedBlockId = None, blockId = Some i \<rparr>"

text \<open>Hint about the first incorrect position.\<close>

definition hintFirstError :: "validator \<Rightarrow> analysis \<Rightarrow> hint_state \<Rightarrow> hint_state" where
  "hintFirstError this result st =
     (case incorrectlyPositioned result of
        [] \<Rightarrow> st
      | firstError # _ \<Rightarrow>
          (case blockMap this (misplaced_expectedBlockId firstError) of
             None \<Rightarrow> st
           | Some expectedBlock \<Rightarrow>
               if misplaced_expectedBlockId firstError \<notin> snd st
               then (fst st @ [positionHint firstError expectedBlock],
                     insert (misplaced_expectedBlockId firstError) (snd st))
               else st))"

text \<open>
  The loop of the second block over the solution order, from the entry it has
  reached: it stops when three hints are there, and breaks after its first push.
\<close>

fun missingLoop :: "validator \<Rightarrow> string list \<Rightarrow> string list \<Rightarrow> hint_state \<Rightarrow> hint_state" where
  "missingLoop this userOrder [] st = st"
| "missingLoop this userOrder (b # rest) st =
     (if \<not> length (fst st) < 3 then st
      else if b \<notin> set userOrder \<and> b \<notin> snd st
      then (case blockMap this b of
              Some missingBlock \<Rightarrow>
                (fst st @ [blockHint missing_hint
                             (''You'' @ [CHR 0x27] @ ''re missing this important step:'')
                             missingBlock b],
                 insert b (snd st))
            | None \<Rightarrow> missingLoop this userOrder rest st)
      else missingLoop this userOrder rest st)"

definition hintMissing :: "validator \<Rightarrow> analysis \<Rightarrow> string list \<Rightarrow> hint_state \<Rightarrow> hint_state" where
  "hintMissing this result userOrder st =
     (if missingBlocks result > 0 \<and> length (fst st) < 3
      then missingLoop this userOrder (this_solutionOrder this) st
      else st)"

text \<open>
  Hint about the next expected block. \<^verbatim>\<open>nextExpected && ...\<close> is false for
  \<^verbatim>\<open>null\<close> and for the empty string.
\<close>

definition hintNext :: "validator \<Rightarrow> string list \<Rightarrow> hint_state \<Rightarrow> hint_state" where
  "hintNext this userOrder st =
     (if length userOrder < length (this_solutionOrder this) \<and> length (fst st) < 3
      then (case getNextExpectedBlock this userOrder of
              None \<Rightarrow> st
            | Some nextExpected \<Rightarrow>
                if nextExpected \<noteq> [] \<and> nextExpected \<notin> snd st
                then (case blockMap this nextExpected of
                        None \<Rightarrow> st
                      | Some nextBlock \<Rightarrow>
                          (fst st @ [blockHint next_hint ''Try adding this block next:''
                                       nextBlock nextExpected],
                           insert nextExpected (snd st)))
                else st)
      else st)"

text \<open>The loop of the last block over \<^verbatim>\<open>missingIds\<close>.\<close>

fun fillLoop :: "validator \<Rightarrow> string list \<Rightarrow> hint_state \<Rightarrow> hint_state" where
  "fillLoop this [] st = st"
| "fillLoop this (m # rest) st =
     (if \<not> length (fst st) < 3 then st
      else (case blockMap this m of
              Some missingBlock \<Rightarrow>
                fillLoop this rest
                  (fst st @ [blockHint missing_hint ''Consider this step:'' missingBlock m],
                   insert m (snd st))
            | None \<Rightarrow> fillLoop this rest st))"

definition hintFill :: "validator \<Rightarrow> analysis \<Rightarrow> string list \<Rightarrow> hint_state \<Rightarrow> hint_state" where
  "hintFill this result userOrder st =
     (if length (fst st) < 3 \<and> missingBlocks result > 0
      then fillLoop this
             (filter (\<lambda>i. i \<notin> set userOrder \<and> i \<notin> snd st) (this_solutionOrder this)) st
      else st)"

definition generateHints :: "validator \<Rightarrow> analysis \<Rightarrow> string list \<Rightarrow> hint list" where
  "generateHints this result userOrder =
     (if correctSequence result then []
      else if \<not> isValid (validateBlockIds this userOrder) then [mismatchHint]
      else fst (hintFill this result userOrder
                  (hintNext this userOrder
                     (hintMissing this result userOrder
                        (hintFirstError this result ([], {}))))))"

section \<open>Validation\<close>

text \<open>
  \<^verbatim>\<open>validateProof\<close>. The argument is an array, so \<^verbatim>\<open>!userOrder\<close> is false.
  The \<^verbatim>\<open>console.warn\<close> of the mismatch branch writes to the console only and is
  left out.
\<close>

definition validateProof :: "validator \<Rightarrow> string list \<Rightarrow> validation" where
  "validateProof this userOrder =
     (if length userOrder = 0
      then \<lparr> isCorrect = False,
             score = Num 0,
             feedback = ''Please arrange the proof blocks to create a valid proof.'',
             details = PromptDetails
               \<lparr> c_totalBlocks = length (this_solutionOrder this),
                 c_correctBlocks = 0,
                 c_incorrectBlocks = 0,
                 c_missingBlocks = length (this_solutionOrder this),
                 c_extraBlocks = 0 \<rparr>,
             hints = None \<rparr>
      else
        let blockValidation = validateBlockIds this userOrder
        in if \<not> isValid blockValidation
           then \<lparr> isCorrect = False,
                  score = Num 0,
                  feedback = ''Error: Some blocks don'' @ [CHR 0x27]
                    @ ''t belong to the current puzzle '' @ [CHR 0x22]
                    @ title (this_puzzle this) @ [CHR 0x22]
                    @ ''. Please refresh the page.'',
                  details = MismatchDetails
                    \<lparr> c_totalBlocks = length (this_solutionOrder this),
                      c_correctBlocks = 0,
                      c_incorrectBlocks = length userOrder,
                      c_missingBlocks = length (this_solutionOrder this),
                      c_extraBlocks = length userOrder \<rparr>
                    (invalidBlocks blockValidation),
                  hints = Some [] \<rparr>
           else
             let result = analyzeSequence this userOrder
             in \<lparr> isCorrect = (isComplete result \<and> correctSequence result),
                  score = calculateScore result,
                  feedback = generateFeedback result,
                  details = Analysis result,
                  hints = Some (generateHints this result userOrder) \<rparr>)"

section \<open>The fragment a hint is about\<close>

text \<open>
  The id a hint object refers to: \<^verbatim>\<open>expectedBlockId\<close> of a position hint,
  \<^verbatim>\<open>blockId\<close> of the others (\<open>None\<close> for the mismatch hint, whose
  \<^verbatim>\<open>blockId\<close> is \<^verbatim>\<open>null\<close>).
\<close>

definition hintBlockId :: "hint \<Rightarrow> string option" where
  "hintBlockId h = (case expectedBlockId h of Some e \<Rightarrow> Some e | None \<Rightarrow> blockId h)"

section \<open>Example puzzles\<close>

definition blocks_of :: "string list \<Rightarrow> block list" where
  "blocks_of ids = map (\<lambda>i. \<lparr> block_id = i, latex = ''latex of '' @ i \<rparr>) ids"

definition puzzle_of :: "string list \<Rightarrow> string list \<Rightarrow> puzzle" where
  "puzzle_of ids order =
     \<lparr> puzzle_id = ''example'', title = ''Example'',
       blocks = blocks_of ids, solutionOrder = order \<rparr>"

definition abcd :: puzzle where
  "abcd = puzzle_of [''a'', ''b'', ''c'', ''d''] [''a'', ''b'', ''c'', ''d'']"

definition ab :: puzzle where
  "ab = puzzle_of [''a'', ''b''] [''a'', ''b'']"

text \<open>Puzzles the specification calls malformed.\<close>

definition empty_puzzle :: puzzle where
  "empty_puzzle = puzzle_of [] []"

definition duplicate_puzzle :: puzzle where
  "duplicate_puzzle = puzzle_of [''a'', ''b'', ''c''] [''a'', ''b'', ''c'', ''c'']"

definition unordered_puzzle :: puzzle where
  "unordered_puzzle = puzzle_of [''a''] []"

text \<open>
  A puzzle of 256 blocks with the ids \<open>x\<close>, \<open>xx\<close>, \<open>xxx\<close>, ..., and its solution
  order with the first two entries swapped.
\<close>

definition xs_id :: "nat \<Rightarrow> string" where
  "xs_id n = replicate n CHR ''x''"

definition long_tail :: "string list" where
  "long_tail = map xs_id [3 ..< 257]"

definition long_order :: "string list" where
  "long_order = ''x'' # ''xx'' # long_tail"

definition long_swapped :: "string list" where
  "long_swapped = ''xx'' # ''x'' # long_tail"

definition long_puzzle :: puzzle where
  "long_puzzle = puzzle_of long_order long_order"

section \<open>Auxiliary notions for the proofs\<close>

text \<open>
  The integer that the partial-credit branch of \<^verbatim>\<open>_calculateScore\<close> computes from
  the number of correctly positioned blocks, the number of solution blocks present, the
  number of extra blocks and a positive number of solution blocks (lemma
  \<open>calculateScore_partial\<close> below).
\<close>

definition partialScore :: "nat \<Rightarrow> nat \<Rightarrow> nat \<Rightarrow> nat \<Rightarrow> int" where
  "partialScore cp cb ex n =
     max 0 \<lfloor>to_double
              (to_double (to_double (to_double (of_nat cp / of_nat n) * 60)
                          + to_double (to_double (of_nat cb / of_nat n) * 40))
               - min (of_nat ex * 5) 20)
            + 1 / 2\<rfloor>"

text \<open>
  What the hint generation keeps true of its pair of hints pushed and ids used: the
  hints are about different ids, each of which is among the ids used.
\<close>

definition hint_inv :: "hint_state \<Rightarrow> bool" where
  "hint_inv st \<longleftrightarrow>
     distinct (map hintBlockId (fst st))
     \<and> set (map hintBlockId (fst st)) \<subseteq> Some ` snd st"

section \<open>The validator of a puzzle\<close>

lemma this_solutionOrder_ProofValidator [simp]:
  "this_solutionOrder (ProofValidator p) = solutionOrder p"
  by (simp add: ProofValidator_def)

lemma this_puzzle_ProofValidator [simp]:
  "this_puzzle (ProofValidator p) = p"
  by (simp add: ProofValidator_def)

lemma blockMap_ProofValidator_dom:
  "dom (blockMap (ProofValidator p)) = set (map block_id (blocks p))"
  by (simp add: ProofValidator_def dom_map_of_conv_image_fst image_image)

lemma blockMap_ProofValidator_None [simp]:
  "blockMap (ProofValidator p) i = None \<longleftrightarrow> i \<notin> set (map block_id (blocks p))"
  using blockMap_ProofValidator_dom [of p] by (metis domIff)

lemma isValid_validateBlockIds [simp]:
  "isValid (validateBlockIds this userOrder)
     \<longleftrightarrow> set userOrder \<subseteq> set (map block_id (blocks (this_puzzle this)))"
  by (auto simp: validateBlockIds_def Let_def filter_empty_conv)

section \<open>Construction never fails\<close>

text \<open>
  C2, as the code has it: the constructor has no check and no \<^verbatim>\<open>throw\<close>. For
  every puzzle, also an empty one, one with a repeated id in its solution order and one
  whose solution order and blocks do not match, \<^verbatim>\<open>new ProofValidator(puzzle)\<close>
  returns a validator that holds the puzzle, its solution order, and a map defined on
  exactly the ids of the puzzle's blocks.
\<close>

theorem C2_construction_never_fails:
  "\<exists>v. new_ProofValidator p = Inr v
       \<and> this_puzzle v = p
       \<and> this_solutionOrder v = solutionOrder p
       \<and> dom (blockMap v) = set (map block_id (blocks p))"
  by (simp add: new_ProofValidator_def blockMap_ProofValidator_dom)

text \<open>
  C2 as stated fails: the empty puzzle, the puzzle with the solution order
  \<open>[a, b, c, c]\<close> and the puzzle with a block but no solution order are all
  constructed without an error.
\<close>

theorem C2_counterexample:
  "new_ProofValidator empty_puzzle \<noteq> Inl InvalidPuzzleError
   \<and> new_ProofValidator duplicate_puzzle \<noteq> Inl InvalidPuzzleError
   \<and> new_ProofValidator unordered_puzzle \<noteq> Inl InvalidPuzzleError"
  by (simp add: new_ProofValidator_def)

section \<open>The empty order\<close>

text \<open>
  C8: for every puzzle, \<^verbatim>\<open>validateProof\<close> of the empty order returns a result
  (the function is total: its first branch reads the length of the solution order only)
  with score 0, \<open>isCorrect = false\<close> and the fixed prompt as feedback.
\<close>

theorem C8_empty_order:
  "score (validateProof (ProofValidator p) []) = Num 0
   \<and> \<not> isCorrect (validateProof (ProofValidator p) [])
   \<and> feedback (validateProof (ProofValidator p) [])
       = ''Please arrange the proof blocks to create a valid proof.''"
  by (simp add: validateProof_def)

section \<open>Orders with a foreign id\<close>

text \<open>
  C1, as the code has it: an order that contains an id which no block of the puzzle
  has is answered by the mismatch branch of \<^verbatim>\<open>validateProof\<close>: score 0,
  \<open>isCorrect = false\<close>, and the empty hint list \<^verbatim>\<open>hints: []\<close>, however many
  valid ids the order also has.
\<close>

theorem C1_foreign_id:
  assumes "x \<in> set userOrder" and "x \<notin> set (map block_id (blocks p))"
  shows "score (validateProof (ProofValidator p) userOrder) = Num 0
         \<and> \<not> isCorrect (validateProof (ProofValidator p) userOrder)
         \<and> hints (validateProof (ProofValidator p) userOrder) = Some []"
proof -
  from assms have "userOrder \<noteq> []" by auto
  moreover from assms
  have "\<not> set userOrder \<subseteq> set (map block_id (blocks p))" by auto
  ultimately show ?thesis
    by (simp add: validateProof_def Let_def)
qed

theorem C1_foreign_id_witness:
  "''zz'' \<in> set [''a'', ''zz'', ''b'']
   \<and> ''zz'' \<notin> set (map block_id (blocks ab))
   \<and> score (validateProof (ProofValidator ab) [''a'', ''zz'', ''b'']) = Num 0
   \<and> \<not> isCorrect (validateProof (ProofValidator ab) [''a'', ''zz'', ''b''])
   \<and> hints (validateProof (ProofValidator ab) [''a'', ''zz'', ''b'']) = Some []"
proof -
  have m: "''zz'' \<in> set [''a'', ''zz'', ''b'']" by simp
  have f: "''zz'' \<notin> set (map block_id (blocks ab))"
    by (simp add: ab_def puzzle_of_def blocks_of_def)
  from C1_foreign_id [OF m f] m f show ?thesis by blast
qed

text \<open>
  C1 as stated fails: for the order \<open>[a, zz]\<close> on the puzzle \<open>[a, b]\<close> the hint
  list of the result is empty, so it does not hold an error hint.
\<close>

theorem C1_counterexample:
  "hints (validateProof (ProofValidator ab) [''a'', ''zz'']) = Some []"
  by code_simp

section \<open>Worked examples\<close>

text \<open>
  C3: on the puzzle with solution order \<open>[a, b]\<close> the order \<open>[a, b, a]\<close>, made of
  valid ids with \<open>a\<close> repeated, gets score 100 and \<open>isCorrect = false\<close>.
\<close>

theorem C3_score_100_not_correct:
  "score (validateProof (ProofValidator ab) [''a'', ''b'', ''a'']) = Num 100
   \<and> \<not> isCorrect (validateProof (ProofValidator ab) [''a'', ''b'', ''a''])"
  by code_simp

text \<open>
  C5: on the puzzle with solution order \<open>[a, b, c, d]\<close> the order \<open>[a, c, b, d]\<close>
  has \<open>a\<close> at index 0 and \<open>d\<close> at index 3 correctly positioned, \<open>c\<close> at index 1
  (expected \<open>b\<close>) and \<open>b\<close> at index 2 (expected \<open>c\<close>) incorrectly positioned,
  score \<open>round ((2/4)*60 + (4/4)*40 - 0) = 70\<close>, \<open>isCorrect = false\<close>, and as its
  first (and only) hint a position hint that names position 2 and carries the block
  \<open>b\<close>.
\<close>

theorem C5_example_acbd:
  "details (validateProof (ProofValidator abcd) [''a'', ''c'', ''b'', ''d''])
     = Analysis
         \<lparr> totalBlocks = 4, userBlocks = 4, correctBlocks = 4, extraBlocks = 0,
           missingBlocks = 0, isComplete = True, correctSequence = False,
           correctlyPositioned = [Placed ''a'' 0, Placed ''d'' 3],
           incorrectlyPositioned = [Misplaced ''c'' 1 ''b'', Misplaced ''b'' 2 ''c''],
           duplicates = [] \<rparr>
   \<and> score (validateProof (ProofValidator abcd) [''a'', ''c'', ''b'', ''d''])
       = Num (of_int \<lfloor>(2 / 4) * 60 + (4 / 4) * 40 - 0 + 1 / 2 :: rat\<rfloor>)
   \<and> score (validateProof (ProofValidator abcd) [''a'', ''c'', ''b'', ''d'']) = Num 70
   \<and> \<not> isCorrect (validateProof (ProofValidator abcd) [''a'', ''c'', ''b'', ''d''])
   \<and> hints (validateProof (ProofValidator abcd) [''a'', ''c'', ''b'', ''d''])
       = Some [\<lparr> hint_type = position_hint,
                 message = ''The block at position 2 should be:'',
                 hint_latex = ''latex of b'',
                 hint_position = Some 1,
                 expectedBlockId = Some ''b'',
                 blockId = None \<rparr>]"
  by code_simp

text \<open>
  C10: on the same puzzle the order \<open>[a, b]\<close> has two missing blocks, is not
  complete, has \<open>a\<close> at index 0 and \<open>b\<close> at index 1 correctly positioned and score
  \<open>round ((2/4)*60 + (2/4)*40) = 50\<close>. Its hints are a missing hint for \<open>c\<close>, then
  a missing hint for \<open>d\<close> from the last block of the hint generation; the next
  expected block is \<open>c\<close>, which is used already, so there is no next hint.
\<close>

theorem C10_example_ab:
  "details (validateProof (ProofValidator abcd) [''a'', ''b''])
     = Analysis
         \<lparr> totalBlocks = 4, userBlocks = 2, correctBlocks = 2, extraBlocks = 0,
           missingBlocks = 2, isComplete = False, correctSequence = False,
           correctlyPositioned = [Placed ''a'' 0, Placed ''b'' 1],
           incorrectlyPositioned = [],
           duplicates = [] \<rparr>
   \<and> score (validateProof (ProofValidator abcd) [''a'', ''b''])
       = Num (of_int \<lfloor>(2 / 4) * 60 + (2 / 4) * 40 + 1 / 2 :: rat\<rfloor>)
   \<and> score (validateProof (ProofValidator abcd) [''a'', ''b'']) = Num 50
   \<and> getNextExpectedBlock (ProofValidator abcd) [''a'', ''b''] = Some ''c''
   \<and> hints (validateProof (ProofValidator abcd) [''a'', ''b''])
       = Some [\<lparr> hint_type = missing_hint,
                 message = ''You'' @ [CHR 0x27] @ ''re missing this important step:'',
                 hint_latex = ''latex of c'',
                 hint_position = None, expectedBlockId = None,
                 blockId = Some ''c'' \<rparr>,
               \<lparr> hint_type = missing_hint,
                 message = ''Consider this step:'',
                 hint_latex = ''latex of d'',
                 hint_position = None, expectedBlockId = None,
                 blockId = Some ''d'' \<rparr>]"
  by code_simp

section \<open>Facts about the analysis\<close>

lemma isCorrectSequence_iff:
  "isCorrectSequence this userOrder 0 (length userOrder)
     \<longleftrightarrow> length userOrder \<le> length (this_solutionOrder this)
         \<and> (\<forall>i < length userOrder. userOrder ! i = this_solutionOrder this ! i)"
  by (cases "userOrder = []") (auto simp: isCorrectSequence_def list_all_iff)

lemma correctBlocks_le:
  "length (filter (\<lambda>i. i \<in> set sol) (remdups u)) \<le> length sol"
proof -
  have "distinct (filter (\<lambda>i. i \<in> set sol) (remdups u))" by simp
  then have "length (filter (\<lambda>i. i \<in> set sol) (remdups u))
          = card (set (filter (\<lambda>i. i \<in> set sol) (remdups u)))"
    by (simp only: distinct_card)
  also have "\<dots> \<le> card (set sol)"
    by (rule card_mono) auto
  also have "\<dots> \<le> length sol"
    by (rule card_length)
  finally show ?thesis .
qed

lemma correctBlocks_analyzeSequence_le:
  "correctBlocks (analyzeSequence this u) \<le> totalBlocks (analyzeSequence this u)"
  by (simp add: analyzeSequence_def Let_def correctBlocks_le)

lemma correctlyPositioned_analyzeSequence_le:
  "length (correctlyPositioned (analyzeSequence this u))
     \<le> totalBlocks (analyzeSequence this u)"
proof -
  have "length (filter (\<lambda>i. u ! i = this_solutionOrder this ! i)
                  [0 ..< min (length u) (length (this_solutionOrder this))])
          \<le> length [0 ..< min (length u) (length (this_solutionOrder this))]"
    by (rule length_filter_le)
  then show ?thesis
    by (simp add: analyzeSequence_def Let_def)
qed

section \<open>Facts about double-precision rounding\<close>

lemma bitlen_powi_bounds:
  assumes "0 < (p::int)"
  shows "(2::rat) powi (bitlen p - 1) \<le> of_int p" and "of_int p < (2::rat) powi bitlen p"
proof -
  from assms have b: "1 \<le> bitlen p"
    using bitlen_eq_zero_iff [of p] bitlen_nonneg [of p] by linarith
  from bitlen_bounds [OF assms]
  have l: "2 ^ nat (bitlen p - 1) \<le> p" and u: "p < 2 ^ nat (bitlen p)" by simp_all
  have "(of_int (2 ^ nat (bitlen p - 1)) :: rat) \<le> of_int p"
    using l by (simp only: of_int_le_iff)
  then show "(2::rat) powi (bitlen p - 1) \<le> of_int p"
    using b by (simp add: power_int_def)
  have "(of_int p :: rat) < of_int (2 ^ nat (bitlen p))"
    using u by (simp only: of_int_less_iff)
  then show "of_int p < (2::rat) powi bitlen p"
    using b by (simp add: power_int_def)
qed

lemma exponent_bounds:
  assumes "0 < x"
  shows "2 powi exponent x \<le> x" and "x < 2 powi (exponent x + 1)"
proof -
  obtain p q where pq: "quotient_of x = (p, q)" by (cases "quotient_of x")
  then have q: "0 < q" by (rule quotient_of_denom_pos)
  from pq have x: "x = of_int p / of_int q" by (rule quotient_of_div)
  with assms q have p: "0 < p" by (simp add: zero_less_divide_iff)
  let ?k = "bitlen p - bitlen q"
  have qr: "(0::rat) < of_int q" using q by simp
  have low: "(2::rat) powi (?k - 1) \<le> x"
  proof -
    have "(2::rat) powi (?k - 1) * of_int q \<le> 2 powi (?k - 1) * 2 powi bitlen q"
      using bitlen_powi_bounds(2) [OF q] by (simp add: less_imp_le)
    also have "\<dots> = 2 powi (bitlen p - 1)"
      by (simp add: power_int_add [symmetric])
    also have "\<dots> \<le> of_int p" by (rule bitlen_powi_bounds(1) [OF p])
    finally show ?thesis using qr by (simp add: x pos_le_divide_eq)
  qed
  have high: "x < (2::rat) powi (?k + 1)"
  proof -
    have "(of_int p :: rat) < 2 powi bitlen p" by (rule bitlen_powi_bounds(2) [OF p])
    also have "\<dots> = 2 powi (?k + 1) * 2 powi (bitlen q - 1)"
      by (simp add: power_int_add [symmetric])
    also have "\<dots> \<le> 2 powi (?k + 1) * of_int q"
      using bitlen_powi_bounds(1) [OF q] by simp
    finally show ?thesis using qr by (simp add: x pos_divide_less_eq)
  qed
  show "2 powi exponent x \<le> x"
    using low by (simp add: exponent_def pq Let_def)
  show "x < 2 powi (exponent x + 1)"
    using high by (auto simp: exponent_def pq Let_def not_le)
qed

lemma round_even_error: "\<bar>of_int (round_even m) - m\<bar> \<le> 1 / 2"
proof -
  have "of_int \<lfloor>m\<rfloor> \<le> m" and "m < of_int \<lfloor>m\<rfloor> + 1" by linarith+
  then show ?thesis
    by (auto simp: round_even_def Let_def)
qed

text \<open>The relative error of one rounding is at most \<open>2^-53\<close>.\<close>

lemma to_double_error: "\<bar>to_double x - x\<bar> \<le> \<bar>x\<bar> / 2 ^ 53"
proof (cases "x = 0")
  case True
  then show ?thesis by (simp add: to_double_def)
next
  case False
  define a where "a = \<bar>x\<bar>"
  define e where "e = exponent a - 52"
  define m where "m = a / 2 powi e"
  define r where "r = round_even m"
  from False have a: "0 < a" by (simp add: a_def)
  have s: "(0::rat) < 2 powi e" by simp
  have am: "a = m * 2 powi e" using s by (simp add: m_def)
  have "(2::rat) powi exponent a = 2 ^ 52 * 2 powi e"
    by (simp add: e_def power_int_diff)
  with exponent_bounds(1) [OF a] have "2 ^ 52 * 2 powi e \<le> m * 2 powi e"
    using am by simp
  with s have m: "2 ^ 52 \<le> m" by simp
  have td: "to_double x = sgn x * (of_int r * 2 powi e)"
    using False by (simp add: to_double_def a_def e_def m_def r_def Let_def)
  have "x = sgn x * \<bar>x\<bar>" by (simp add: sgn_mult_abs)
  then have xs: "x = sgn x * (m * 2 powi e)"
    using am by (simp only: a_def)
  have "to_double x - x = sgn x * ((of_int r - m) * 2 powi e)"
    by (subst td, subst (2) xs) (simp add: algebra_simps)
  then have "\<bar>to_double x - x\<bar> = \<bar>of_int r - m\<bar> * 2 powi e"
    using False s by (simp add: abs_mult abs_sgn_eq)
  also have "\<dots> \<le> 1 / 2 * 2 powi e"
    using round_even_error [of m] s unfolding r_def by (intro mult_right_mono) simp_all
  also have "\<dots> \<le> m / 2 ^ 53 * 2 powi e"
    using m s by (intro mult_right_mono) simp_all
  also have "\<dots> = \<bar>x\<bar> / 2 ^ 53"
    by (simp add: am a_def [symmetric])
  finally show ?thesis .
qed

lemma round_even_ge_floor: "\<lfloor>m\<rfloor> \<le> round_even m"
  by (simp add: round_even_def Let_def)

lemma round_even_le_floor: "round_even m \<le> \<lfloor>m\<rfloor> + 1"
  by (simp add: round_even_def Let_def)

text \<open>
  The value of \<open>to_double\<close> is a double: an integer significand of at most 53 bits times
  a power of two, the significand being the scaled argument rounded to the nearest
  integer.
\<close>

lemma to_double_significand:
  assumes "x \<noteq> 0"
  shows "2 ^ 52 \<le> round_even (\<bar>x\<bar> / 2 powi (exponent \<bar>x\<bar> - 52))"
    and "round_even (\<bar>x\<bar> / 2 powi (exponent \<bar>x\<bar> - 52)) \<le> 2 ^ 53"
    and "to_double x = sgn x * of_int (round_even (\<bar>x\<bar> / 2 powi (exponent \<bar>x\<bar> - 52)))
                         * 2 powi (exponent \<bar>x\<bar> - 52)"
proof -
  define e where "e = exponent \<bar>x\<bar> - 52"
  define m where "m = \<bar>x\<bar> / 2 powi e"
  from assms have a: "0 < \<bar>x\<bar>" by simp
  have s: "(0::rat) < 2 powi e" by simp
  have am: "\<bar>x\<bar> = m * 2 powi e" using s by (simp add: m_def)
  have lo: "(2::rat) powi exponent \<bar>x\<bar> = 2 ^ 52 * 2 powi e"
    by (simp add: e_def power_int_diff)
  have hi: "(2::rat) powi (exponent \<bar>x\<bar> + 1) = 2 ^ 53 * 2 powi e"
    by (simp add: e_def power_int_diff power_int_add)
  from exponent_bounds(1) [OF a] lo am have "2 ^ 52 * 2 powi e \<le> m * 2 powi e" by simp
  with s have m1: "2 ^ 52 \<le> m" by simp
  from exponent_bounds(2) [OF a] hi am have "m * 2 powi e < 2 ^ 53 * 2 powi e" by simp
  with s have m2: "m < 2 ^ 53" by simp
  from m1 have "(2 ^ 52 :: int) \<le> \<lfloor>m\<rfloor>" by (simp add: le_floor_iff)
  with round_even_ge_floor [of m] have "2 ^ 52 \<le> round_even m" by linarith
  then show "2 ^ 52 \<le> round_even (\<bar>x\<bar> / 2 powi (exponent \<bar>x\<bar> - 52))"
    unfolding m_def e_def .
  from m2 have "\<lfloor>m\<rfloor> < (2 ^ 53 :: int)" by (simp add: floor_less_iff)
  with round_even_le_floor [of m] have "round_even m \<le> 2 ^ 53" by linarith
  then show "round_even (\<bar>x\<bar> / 2 powi (exponent \<bar>x\<bar> - 52)) \<le> 2 ^ 53"
    unfolding m_def e_def .
  show "to_double x = sgn x * of_int (round_even (\<bar>x\<bar> / 2 powi (exponent \<bar>x\<bar> - 52)))
                         * 2 powi (exponent \<bar>x\<bar> - 52)"
    using assms by (simp add: to_double_def Let_def)
qed

lemma to_double_near:
  assumes "\<bar>x\<bar> \<le> 128"
  shows "\<bar>to_double x - x\<bar> \<le> 1 / 2 ^ 46"
proof -
  have "\<bar>to_double x - x\<bar> \<le> \<bar>x\<bar> / 2 ^ 53" by (rule to_double_error)
  also have "\<dots> \<le> 128 / 2 ^ 53" using assms by (simp add: divide_right_mono)
  also have "\<dots> = 1 / 2 ^ 46" by simp
  finally show ?thesis .
qed

text \<open>
  The four roundings of the score computation, for quotients \<open>a\<close> and \<open>b\<close> between 0
  and 1 and a penalty between 0 and 20: the result exceeds the exact value by at most
  \<open>104 / 2^46\<close>.
\<close>

lemma rounded_score_upper:
  assumes a: "0 \<le> a" "a \<le> 1" and b: "0 \<le> b" "b \<le> 1" and pen: "0 \<le> pen" "pen \<le> 20"
  shows "to_double (to_double (to_double (to_double a * 60) + to_double (to_double b * 40))
                    - pen)
           \<le> a * 60 + b * 40 - pen + 104 / 2 ^ 46"
proof -
  define p1 where "p1 = to_double a"
  define p2 where "p2 = to_double (p1 * 60)"
  define q1 where "q1 = to_double b"
  define q2 where "q2 = to_double (q1 * 40)"
  define s where "s = to_double (p2 + q2)"
  define t where "t = to_double (s - pen)"
  have small: "(1 / 2 ^ 46 :: rat) \<le> 1 / 1000" by simp
  have e1: "\<bar>p1 - a\<bar> \<le> 1 / 2 ^ 46"
    unfolding p1_def using a by (intro to_double_near) simp
  have e2: "\<bar>p2 - p1 * 60\<bar> \<le> 1 / 2 ^ 46"
    unfolding p2_def using e1 a small by (intro to_double_near) linarith
  have e3: "\<bar>q1 - b\<bar> \<le> 1 / 2 ^ 46"
    unfolding q1_def using b by (intro to_double_near) simp
  have e4: "\<bar>q2 - q1 * 40\<bar> \<le> 1 / 2 ^ 46"
    unfolding q2_def using e3 b small by (intro to_double_near) linarith
  have e5: "\<bar>s - (p2 + q2)\<bar> \<le> 1 / 2 ^ 46"
    unfolding s_def using e1 e2 e3 e4 a b small by (intro to_double_near) linarith
  have e6: "\<bar>t - (s - pen)\<bar> \<le> 1 / 2 ^ 46"
    unfolding t_def using e1 e2 e3 e4 e5 a b pen small by (intro to_double_near) linarith
  have "t \<le> a * 60 + b * 40 - pen + 104 / 2 ^ 46"
    using e1 e2 e3 e4 e5 e6 by linarith
  then show ?thesis
    by (simp only: t_def s_def q2_def q1_def p2_def p1_def)
qed

section \<open>Facts about the score\<close>

lemma calculateScore_partial:
  assumes "\<not> correctSequence r" and "totalBlocks r > 0"
  shows "calculateScore r
           = Num (of_int (partialScore (length (correctlyPositioned r)) (correctBlocks r)
                            (extraBlocks r) (totalBlocks r)))"
  using assms
  by (simp add: calculateScore_def js_div_def Let_def partialScore_def of_int_max)

lemma partialScore_bounds:
  assumes "cp \<le> n" and "cb \<le> n" and "n > 0"
  shows "0 \<le> partialScore cp cb ex n" and "partialScore cp cb ex n \<le> 100"
proof -
  show "0 \<le> partialScore cp cb ex n" by (simp add: partialScore_def)
  have p: "(0::rat) \<le> of_nat cp / of_nat n" "(of_nat cp / of_nat n :: rat) \<le> 1"
    using assms by simp_all
  have q: "(0::rat) \<le> of_nat cb / of_nat n" "(of_nat cb / of_nat n :: rat) \<le> 1"
    using assms by simp_all
  have e: "(0::rat) \<le> min (of_nat ex * 5) 20" "(min (of_nat ex * 5) 20 :: rat) \<le> 20"
    by simp_all
  have small: "(104 / 2 ^ 46 :: rat) \<le> 1 / 1000" by simp
  have "to_double
          (to_double (to_double (to_double (of_nat cp / of_nat n) * 60)
                      + to_double (to_double (of_nat cb / of_nat n) * 40))
           - min (of_nat ex * 5) 20) + 1 / 2 < 101"
    using rounded_score_upper [OF p q e] p q e small by linarith
  then have "\<lfloor>to_double
          (to_double (to_double (to_double (of_nat cp / of_nat n) * 60)
                      + to_double (to_double (of_nat cb / of_nat n) * 40))
           - min (of_nat ex * 5) 20) + 1 / 2\<rfloor> < 101"
    by (simp add: floor_less_iff)
  then show "partialScore cp cb ex n \<le> 100" by (simp add: partialScore_def)
qed

lemma partialScore_below_100:
  assumes cp: "cp + 2 \<le> n" and cb: "cb \<le> n" and n: "n < 240"
  shows "partialScore cp cb ex n < 100"
proof -
  from cp have pos: "(0::rat) < of_nat n" by simp
  from cp have "(of_nat cp :: rat) + 2 \<le> of_nat n"
    by (metis of_nat_add of_nat_le_iff of_nat_numeral)
  then have "(of_nat cp :: rat) \<le> of_nat n - 2" by simp
  then have "(of_nat cp / of_nat n :: rat) \<le> (of_nat n - 2) / of_nat n"
    using pos by (simp add: divide_right_mono)
  also have "\<dots> = 1 - 2 / of_nat n"
    using pos by (simp add: diff_divide_distrib)
  finally have p1: "(of_nat cp / of_nat n :: rat) \<le> 1 - 2 / of_nat n" .
  have p: "(0::rat) \<le> of_nat cp / of_nat n" "(of_nat cp / of_nat n :: rat) \<le> 1"
    using cp pos by simp_all
  have q: "(0::rat) \<le> of_nat cb / of_nat n" "(of_nat cb / of_nat n :: rat) \<le> 1"
    using cb pos by simp_all
  have e: "(0::rat) \<le> min (of_nat ex * 5) 20" "(min (of_nat ex * 5) 20 :: rat) \<le> 20"
    by simp_all
  from n have "n \<le> 239" by simp
  then have "(of_nat n :: rat) \<le> 239"
    by (metis of_nat_le_iff of_nat_numeral)
  then have d: "(2 :: rat) / 239 \<le> 2 / of_nat n"
    using pos by (intro divide_left_mono) simp_all
  have small: "(104 / 2 ^ 46 :: rat) \<le> 1 / 1000" by simp
  have "to_double
          (to_double (to_double (to_double (of_nat cp / of_nat n) * 60)
                      + to_double (to_double (of_nat cb / of_nat n) * 40))
           - min (of_nat ex * 5) 20) + 1 / 2 < 100"
    using rounded_score_upper [OF p q e] p1 q e d small by linarith
  then have "\<lfloor>to_double
          (to_double (to_double (to_double (of_nat cp / of_nat n) * 60)
                      + to_double (to_double (of_nat cb / of_nat n) * 40))
           - min (of_nat ex * 5) 20) + 1 / 2\<rfloor> < 100"
    by (simp add: floor_less_iff)
  then show ?thesis by (simp add: partialScore_def)
qed

text \<open>
  The roundings matter: with 1 block correctly positioned and 16 of 56 solution blocks
  present the exact sum is 12.5, the sum of the doubles is just below it, and the score
  is 12.
\<close>

lemma partialScore_rounds_doubles: "partialScore 1 16 0 56 = 12"
  by code_simp

section \<open>The solution order itself\<close>

text \<open>
  C7: for every puzzle with a solution order that is not empty and consists of ids of
  the puzzle's blocks (as it does in every well-formed puzzle), \<^verbatim>\<open>validateProof\<close>
  of the solution order returns \<open>isCorrect = true\<close>, score 100 and no hints.
\<close>

theorem C7_solution_is_correct:
  assumes "solutionOrder p \<noteq> []"
      and "set (solutionOrder p) \<subseteq> set (map block_id (blocks p))"
  shows "isCorrect (validateProof (ProofValidator p) (solutionOrder p))
       \<and> score (validateProof (ProofValidator p) (solutionOrder p)) = Num 100
       \<and> hints (validateProof (ProofValidator p) (solutionOrder p)) = Some []"
proof -
  let ?v = "ProofValidator p" and ?s = "solutionOrder p"
  have seq: "isCorrectSequence ?v ?s 0 (length ?s)"
    by (simp add: isCorrectSequence_iff)
  have cs: "correctSequence (analyzeSequence ?v ?s)"
    using seq by (simp add: analyzeSequence_def Let_def)
  have co: "isComplete (analyzeSequence ?v ?s)"
    by (simp add: analyzeSequence_def Let_def)
  show ?thesis using assms cs co
    by (simp add: validateProof_def Let_def calculateScore_def generateHints_def)
qed

theorem C7_solution_is_correct_witness:
  "solutionOrder abcd \<noteq> []
   \<and> set (solutionOrder abcd) \<subseteq> set (map block_id (blocks abcd))
   \<and> isCorrect (validateProof (ProofValidator abcd) (solutionOrder abcd))
   \<and> score (validateProof (ProofValidator abcd) (solutionOrder abcd)) = Num 100
   \<and> hints (validateProof (ProofValidator abcd) (solutionOrder abcd)) = Some []"
proof -
  have n: "solutionOrder abcd \<noteq> []"
    by (simp add: abcd_def puzzle_of_def)
  have s: "set (solutionOrder abcd) \<subseteq> set (map block_id (blocks abcd))"
    by (simp add: abcd_def puzzle_of_def blocks_of_def)
  from C7_solution_is_correct [OF n s] n s show ?thesis by blast
qed

section \<open>The range of the score\<close>

text \<open>
  C9: for every puzzle whose solution order is not empty (as it is in every well-formed
  puzzle) and every order, the score of the result is an integer between 0 and 100.
  The four roundings of the partial score cannot lift it to 100.5.
\<close>

theorem C9_score_range:
  assumes "solutionOrder p \<noteq> []"
  shows "\<exists>k::int. score (validateProof (ProofValidator p) u) = Num (of_int k)
                  \<and> 0 \<le> k \<and> k \<le> 100"
proof -
  let ?v = "ProofValidator p"
  let ?r = "analyzeSequence ?v u"
  have n: "totalBlocks ?r > 0" using assms by (simp add: analyzeSequence_def Let_def)
  consider (empty) "u = []"
    | (foreign) "u \<noteq> []" "\<not> set u \<subseteq> set (map block_id (blocks p))"
    | (right) "u \<noteq> []" "set u \<subseteq> set (map block_id (blocks p))" "correctSequence ?r"
    | (partial) "u \<noteq> []" "set u \<subseteq> set (map block_id (blocks p))" "\<not> correctSequence ?r"
    by blast
  then show ?thesis
  proof cases
    case empty
    then have "score (validateProof ?v u) = Num (of_int 0)" by (simp add: validateProof_def)
    then show ?thesis by (intro exI [of _ 0]) simp
  next
    case foreign
    then have "score (validateProof ?v u) = Num (of_int 0)"
      by (simp add: validateProof_def Let_def)
    then show ?thesis by (intro exI [of _ 0]) simp
  next
    case right
    then have "score (validateProof ?v u) = Num (of_int 100)"
      by (simp add: validateProof_def Let_def calculateScore_def)
    then show ?thesis by (intro exI [of _ 100]) simp
  next
    case partial
    let ?k = "partialScore (length (correctlyPositioned ?r)) (correctBlocks ?r)
                (extraBlocks ?r) (totalBlocks ?r)"
    from partial n have "score (validateProof ?v u) = Num (of_int ?k)"
      by (simp add: validateProof_def Let_def calculateScore_partial)
    moreover have "0 \<le> ?k" "?k \<le> 100"
      using partialScore_bounds [OF correctlyPositioned_analyzeSequence_le
              correctBlocks_analyzeSequence_le n] by blast+
    ultimately show ?thesis by blast
  qed
qed

theorem C9_score_range_witness:
  "solutionOrder abcd \<noteq> []
   \<and> (\<exists>k::int. score (validateProof (ProofValidator abcd) [''d'', ''a'', ''d'']) = Num (of_int k)
                \<and> 0 \<le> k \<and> k \<le> 100)"
proof -
  have n: "solutionOrder abcd \<noteq> []"
    by (simp add: abcd_def puzzle_of_def)
  from C9_score_range [OF n] n show ?thesis by blast
qed

text \<open>
  The hypothesis is needed. A puzzle with a block \<open>a\<close> and an empty solution order
  does not satisfy the invariant of puzzles, but the constructor takes it: the order
  \<open>[a]\<close> passes the id check, both quotients of the score are \<open>0/0\<close>, and the score
  is \<^verbatim>\<open>NaN\<close>.
\<close>

lemma score_without_solution_order:
  "score (validateProof (ProofValidator unordered_puzzle) [''a'']) = NaN"
  by code_simp

section \<open>Two adjacent entries swapped\<close>

lemma filter_upt_misses_two:
  assumes "Suc k < n" and "\<not> P k" and "\<not> P (Suc k)"
  shows "length (filter P [0 ..< n]) + 2 \<le> n"
proof -
  have "{k, Suc k} \<subseteq> set (filter (\<lambda>i. \<not> P i) [0 ..< n])"
    using assms by auto
  then have "card {k, Suc k} \<le> card (set (filter (\<lambda>i. \<not> P i) [0 ..< n]))"
    by (intro card_mono) auto
  also have "\<dots> = length (filter (\<lambda>i. \<not> P i) [0 ..< n])"
    by (rule distinct_card) simp
  finally have "2 \<le> length (filter (\<lambda>i. \<not> P i) [0 ..< n])" by simp
  moreover have "length (filter P [0 ..< n]) + length (filter (\<lambda>i. \<not> P i) [0 ..< n])
                   = length [0 ..< n]"
    by (rule sum_length_filter_compl)
  ultimately show ?thesis by simp
qed

lemma swapped_not_correctSequence:
  assumes "this_solutionOrder this = pre @ a # b # suf" and "a \<noteq> b"
  shows "\<not> correctSequence (analyzeSequence this (pre @ b # a # suf))"
proof -
  have "(pre @ b # a # suf) ! length pre \<noteq> (pre @ a # b # suf) ! length pre"
    using assms(2) by simp
  moreover have "length pre < length (pre @ b # a # suf)" by simp
  ultimately have "\<not> isCorrectSequence this (pre @ b # a # suf) 0
                       (length (pre @ b # a # suf))"
    unfolding isCorrectSequence_iff assms(1) by blast
  then show ?thesis by (simp add: analyzeSequence_def Let_def)
qed

lemma swapped_correctlyPositioned:
  assumes "this_solutionOrder this = pre @ a # b # suf" and "a \<noteq> b"
  shows "length (correctlyPositioned (analyzeSequence this (pre @ b # a # suf))) + 2
           \<le> totalBlocks (analyzeSequence this (pre @ b # a # suf))"
proof -
  let ?u = "pre @ b # a # suf" and ?s = "pre @ a # b # suf"
  have k: "Suc (length pre) < length ?s" by simp
  have k0: "\<not> ?u ! length pre = ?s ! length pre" using assms(2) by simp
  have k1: "\<not> ?u ! Suc (length pre) = ?s ! Suc (length pre)"
    using assms(2) by (simp add: nth_append)
  have "length (filter (\<lambda>i. ?u ! i = ?s ! i) [0 ..< length ?s]) + 2 \<le> length ?s"
    using k k0 k1 by (rule filter_upt_misses_two)
  then show ?thesis
    by (simp add: analyzeSequence_def Let_def assms(1))
qed

text \<open>
  C4, as the code has it: for every puzzle, an order got from the solution order by
  swapping two adjacent entries that differ has \<open>isCorrect = false\<close>; and if the
  solution order has fewer than 240 entries, its score is an integer below 100.
\<close>

theorem C4_adjacent_swap:
  assumes sol: "solutionOrder p = pre @ a # b # suf"
      and ab: "a \<noteq> b"
  shows "\<not> isCorrect (validateProof (ProofValidator p) (pre @ b # a # suf))
       \<and> (length (solutionOrder p) < 240 \<longrightarrow>
            (\<exists>k::int. score (validateProof (ProofValidator p) (pre @ b # a # suf))
                         = Num (of_int k) \<and> 0 \<le> k \<and> k < 100))"
proof -
  let ?v = "ProofValidator p" and ?u = "pre @ b # a # suf"
  let ?r = "analyzeSequence ?v ?u"
  have this_sol: "this_solutionOrder ?v = pre @ a # b # suf" using sol by simp
  have ncs: "\<not> correctSequence ?r"
    using this_sol ab by (rule swapped_not_correctSequence)
  have n: "totalBlocks ?r > 0" by (simp add: analyzeSequence_def Let_def sol)
  show ?thesis
  proof (cases "set ?u \<subseteq> set (map block_id (blocks p))")
    case False
    then have "\<not> isCorrect (validateProof ?v ?u)"
      and "score (validateProof ?v ?u) = Num (of_int 0)"
      by (simp_all add: validateProof_def Let_def)
    then show ?thesis by (intro conjI impI exI [of _ 0]) simp_all
  next
    case True
    let ?k = "partialScore (length (correctlyPositioned ?r)) (correctBlocks ?r)
                (extraBlocks ?r) (totalBlocks ?r)"
    from True ncs have nc: "\<not> isCorrect (validateProof ?v ?u)"
      by (simp add: validateProof_def Let_def)
    from True ncs n have sc: "score (validateProof ?v ?u) = Num (of_int ?k)"
      by (simp add: validateProof_def Let_def calculateScore_partial)
    have lo: "0 \<le> ?k"
      using partialScore_bounds(1) [OF correctlyPositioned_analyzeSequence_le
              correctBlocks_analyzeSequence_le n] .
    have hi: "?k < 100" if "length (solutionOrder p) < 240"
    proof -
      from that have "totalBlocks ?r < 240" by (simp add: analyzeSequence_def Let_def)
      with swapped_correctlyPositioned [OF this_sol ab] correctBlocks_analyzeSequence_le
      show ?thesis by (rule partialScore_below_100)
    qed
    from nc sc lo hi show ?thesis by blast
  qed
qed

theorem C4_adjacent_swap_witness:
  "solutionOrder abcd = [''a''] @ ''b'' # ''c'' # [''d'']
   \<and> ''b'' \<noteq> ''c''
   \<and> length (solutionOrder abcd) < 240
   \<and> \<not> isCorrect (validateProof (ProofValidator abcd) ([''a''] @ ''c'' # ''b'' # [''d'']))
   \<and> (\<exists>k::int. score (validateProof (ProofValidator abcd) ([''a''] @ ''c'' # ''b'' # [''d'']))
                  = Num (of_int k) \<and> 0 \<le> k \<and> k < 100)"
proof -
  have s: "solutionOrder abcd = [''a''] @ ''b'' # ''c'' # [''d'']"
    by (simp add: abcd_def puzzle_of_def)
  have d: "''b'' \<noteq> ''c''" by simp
  have l: "length (solutionOrder abcd) < 240"
    by (simp add: abcd_def puzzle_of_def)
  from C4_adjacent_swap [OF s d] s d l show ?thesis by blast
qed

subsection \<open>A long puzzle\<close>

lemma length_long_tail: "length long_tail = 254"
  by (simp add: long_tail_def)

lemma distinct_long_order: "distinct long_order"
proof -
  have inj: "inj_on xs_id (set [3 ..< 257])"
    by (rule inj_onI) (metis length_replicate xs_id_def)
  have "distinct (map xs_id [3 ..< 257])"
    using inj by (simp only: distinct_map distinct_upt simp_thms)
  then have tail: "distinct long_tail"
    by (simp only: long_tail_def)
  have long: "3 \<le> length t" if "t \<in> set long_tail" for t
  proof -
    from that have "t \<in> xs_id ` {3 ..< 257}"
      by (simp only: long_tail_def set_map set_upt)
    then obtain n where "t = xs_id n" and "n \<in> {3 ..< 257}" by (rule imageE)
    then show ?thesis by (simp add: xs_id_def)
  qed
  have "''x'' \<notin> set long_tail" and "''xx'' \<notin> set long_tail"
    using long by fastforce+
  with tail show ?thesis by (simp add: long_order_def)
qed

lemma swapped_head_analysis:
  assumes sol: "this_solutionOrder this = a # b # t" and dist: "distinct (a # b # t)"
  shows "\<not> correctSequence (analyzeSequence this (b # a # t))"
    and "length (correctlyPositioned (analyzeSequence this (b # a # t))) = length t"
    and "correctBlocks (analyzeSequence this (b # a # t)) = length t + 2"
    and "extraBlocks (analyzeSequence this (b # a # t)) = 0"
    and "totalBlocks (analyzeSequence this (b # a # t)) = length t + 2"
proof -
  let ?u = "b # a # t" and ?s = "a # b # t"
  from dist have ab: "a \<noteq> b" by auto
  from dist have du: "distinct ?u" by auto
  show "\<not> correctSequence (analyzeSequence this ?u)"
    using swapped_not_correctSequence [of this "[]" a b t] sol ab by simp
  have u0: "[0 ..< Suc (Suc (length t))] = 0 # [Suc 0 ..< Suc (Suc (length t))]"
    by (rule upt_conv_Cons) simp
  have u1: "[Suc 0 ..< Suc (Suc (length t))]
              = Suc 0 # [Suc (Suc 0) ..< Suc (Suc (length t))]"
    by (rule upt_conv_Cons) simp
  have "\<forall>i \<in> set [Suc (Suc 0) ..< Suc (Suc (length t))]. ?u ! i = ?s ! i"
  proof
    fix i assume "i \<in> set [Suc (Suc 0) ..< Suc (Suc (length t))]"
    then have "Suc (Suc 0) \<le> i" by (simp del: upt_Suc)
    then obtain j where "i = Suc (Suc j)"
      by (metis Suc_le_D Suc_le_mono)
    then show "?u ! i = ?s ! i" by simp
  qed
  then have rest: "filter (\<lambda>i. ?u ! i = ?s ! i) [Suc (Suc 0) ..< Suc (Suc (length t))]
                     = [Suc (Suc 0) ..< Suc (Suc (length t))]"
    by (rule filter_True)
  have "filter (\<lambda>i. ?u ! i = ?s ! i) [0 ..< Suc (Suc (length t))]
          = [Suc (Suc 0) ..< Suc (Suc (length t))]"
    unfolding u0 u1 using ab rest by (simp del: upt_Suc)
  then have "length (filter (\<lambda>i. ?u ! i = ?s ! i) [0 ..< Suc (Suc (length t))]) = length t"
    by (simp del: upt_Suc)
  then show "length (correctlyPositioned (analyzeSequence this ?u)) = length t"
    by (simp add: analyzeSequence_def Let_def sol)
  have su: "set ?u = set ?s" by auto
  have "filter (\<lambda>i. i \<in> set ?s) ?u = ?u"
    by (rule filter_True) (simp add: su)
  then show "correctBlocks (analyzeSequence this ?u) = length t + 2"
    using du dist by (simp add: analyzeSequence_def Let_def sol distinct_remdups_id)
  have "filter (\<lambda>i. i \<notin> set ?s) ?u = []"
    by (rule filter_False) (simp add: su)
  then show "extraBlocks (analyzeSequence this ?u) = 0"
    using du dist by (simp add: analyzeSequence_def Let_def sol distinct_remdups_id)
  show "totalBlocks (analyzeSequence this ?u) = length t + 2"
    by (simp add: analyzeSequence_def Let_def sol)
qed

lemma partialScore_long: "partialScore 254 256 0 256 = 100"
  by code_simp

text \<open>The bound 240 cannot be raised: at 240 entries the score of a swap is 100.\<close>

lemma partialScore_at_240: "partialScore 238 240 0 240 = 100"
  by code_simp

text \<open>
  C4 as stated fails: on the puzzle of 256 blocks the solution order with its first two
  entries swapped gets \<open>round ((254/256)*60 + (256/256)*40) = round 99.53125 = 100\<close>
  (every intermediate value is a double, no rounding occurs).
\<close>

theorem C4_counterexample:
  "score (validateProof (ProofValidator long_puzzle) long_swapped) = Num 100"
proof -
  let ?v = "ProofValidator long_puzzle"
  let ?r = "analyzeSequence ?v long_swapped"
  have sol: "this_solutionOrder ?v = ''x'' # ''xx'' # long_tail"
    by (simp add: long_puzzle_def puzzle_of_def long_order_def)
  have dist: "distinct (''x'' # ''xx'' # long_tail)"
    using distinct_long_order by (simp add: long_order_def)
  have valid: "set long_swapped \<subseteq> set (map block_id (blocks long_puzzle))"
    by (auto simp: long_puzzle_def puzzle_of_def blocks_of_def long_order_def
          long_swapped_def image_image)
  have ne: "long_swapped \<noteq> []" by (simp add: long_swapped_def)
  note an = swapped_head_analysis [OF sol dist, folded long_swapped_def]
  have "score (validateProof ?v long_swapped) = calculateScore ?r"
    using valid ne by (simp add: validateProof_def Let_def)
  also have "\<dots> = Num (of_int (partialScore 254 256 0 256))"
    using an by (simp add: calculateScore_partial length_long_tail)
  finally show ?thesis by (simp add: partialScore_long)
qed

section \<open>The hints of one result\<close>

lemma hintBlockId_positionHint [simp]:
  "hintBlockId (positionHint firstError b) = Some (misplaced_expectedBlockId firstError)"
  by (simp add: hintBlockId_def positionHint_def)

lemma hintBlockId_blockHint [simp]:
  "hintBlockId (blockHint ty msg b i) = Some i"
  by (simp add: hintBlockId_def blockHint_def)

subsection \<open>At most three hints\<close>

lemma length_hintFirstError:
  "length (fst (hintFirstError this result ([], {}))) \<le> 3"
  by (simp add: hintFirstError_def split: list.splits option.splits)

lemma length_missingLoop:
  "length (fst st) \<le> 3 \<Longrightarrow> length (fst (missingLoop this userOrder bs st)) \<le> 3"
  by (induction bs) (auto split: option.splits)

lemma length_hintMissing:
  "length (fst st) \<le> 3 \<Longrightarrow> length (fst (hintMissing this result userOrder st)) \<le> 3"
  by (simp add: hintMissing_def length_missingLoop)

lemma length_hintNext:
  "length (fst st) \<le> 3 \<Longrightarrow> length (fst (hintNext this userOrder st)) \<le> 3"
  by (auto simp: hintNext_def split: option.splits)

lemma length_fillLoop:
  "length (fst st) \<le> 3 \<Longrightarrow> length (fst (fillLoop this ms st)) \<le> 3"
proof (induction ms arbitrary: st)
  case Nil
  then show ?case by simp
next
  case (Cons m ms)
  show ?case
  proof (cases "length (fst st) < 3")
    case False
    with Cons.prems show ?thesis by simp
  next
    case True
    then have "length (fst (fst st @ [h], insert m (snd st))) \<le> 3" for h
      by simp
    with True Cons.prems show ?thesis
      by (auto split: option.splits intro!: Cons.IH)
  qed
qed

lemma length_hintFill:
  "length (fst st) \<le> 3 \<Longrightarrow> length (fst (hintFill this result userOrder st)) \<le> 3"
  by (simp add: hintFill_def length_fillLoop)

lemma length_generateHints: "length (generateHints this result userOrder) \<le> 3"
  by (simp add: generateHints_def mismatchHint_def length_hintFill length_hintNext
        length_hintMissing length_hintFirstError)

subsection \<open>No id twice\<close>

lemma hint_inv_push:
  assumes "hint_inv st" and "i \<notin> snd st" and "hintBlockId h = Some i"
  shows "hint_inv (fst st @ [h], insert i (snd st))"
  using assms by (auto simp: hint_inv_def)

lemma hint_inv_hintFirstError: "hint_inv (hintFirstError this result ([], {}))"
  by (simp add: hintFirstError_def hint_inv_def split: list.splits option.splits)

lemma hint_inv_missingLoop:
  "hint_inv st \<Longrightarrow> hint_inv (missingLoop this userOrder bs st)"
  by (induction bs) (auto split: option.splits intro: hint_inv_push)

lemma hint_inv_hintMissing:
  "hint_inv st \<Longrightarrow> hint_inv (hintMissing this result userOrder st)"
  by (simp add: hintMissing_def hint_inv_missingLoop)

lemma hint_inv_hintNext:
  "hint_inv st \<Longrightarrow> hint_inv (hintNext this userOrder st)"
  by (auto simp: hintNext_def split: option.splits intro: hint_inv_push)

lemma hint_inv_fillLoop:
  assumes "hint_inv st" and "distinct ms" and "set ms \<inter> snd st = {}"
  shows "hint_inv (fillLoop this ms st)"
  using assms
proof (induction ms arbitrary: st)
  case Nil
  then show ?case by simp
next
  case (Cons m ms)
  from Cons.prems have m: "m \<notin> snd st" and ms: "distinct ms"
    and fresh: "set ms \<inter> snd st = {}" and later: "m \<notin> set ms"
    by auto
  have unchanged: "hint_inv (fillLoop this ms st)"
    using Cons.prems(1) ms fresh by (rule Cons.IH)
  have pushed: "hint_inv (fillLoop this ms (fst st @ [h], insert m (snd st)))"
    if "hintBlockId h = Some m" for h
  proof (rule Cons.IH)
    show "hint_inv (fst st @ [h], insert m (snd st))"
      using Cons.prems(1) m that by (rule hint_inv_push)
    show "distinct ms" by (rule ms)
    show "set ms \<inter> snd (fst st @ [h], insert m (snd st)) = {}"
      using fresh later by simp
  qed
  show ?case
    using Cons.prems(1) unchanged pushed by (simp split: option.splits)
qed

lemma hint_inv_hintFill:
  assumes "hint_inv st" and "distinct (this_solutionOrder this)"
  shows "hint_inv (hintFill this result userOrder st)"
proof -
  have "hint_inv (fillLoop this
          (filter (\<lambda>i. i \<notin> set userOrder \<and> i \<notin> snd st) (this_solutionOrder this)) st)"
    using assms by (intro hint_inv_fillLoop) auto
  with assms(1) show ?thesis by (simp add: hintFill_def)
qed

lemma distinct_generateHints:
  assumes "distinct (this_solutionOrder this)"
  shows "distinct (map hintBlockId (generateHints this result userOrder))"
proof -
  have "hint_inv (hintFill this result userOrder
                    (hintNext this userOrder
                       (hintMissing this result userOrder
                          (hintFirstError this result ([], {})))))"
    by (intro hint_inv_hintFill hint_inv_hintNext hint_inv_hintMissing
          hint_inv_hintFirstError assms)
  then show ?thesis
    by (simp add: generateHints_def hint_inv_def)
qed

text \<open>
  C6: the hint list of a result of \<^verbatim>\<open>validateProof\<close> has at most three hints, for
  every puzzle and every order; and for every puzzle whose solution order has no id
  twice (as in every well-formed puzzle), no two hints of the list are about the same
  id. The result for the empty order has no hint list.
\<close>

theorem C6_hint_cap:
  assumes "hints (validateProof (ProofValidator p) userOrder) = Some hs"
  shows "length hs \<le> 3
       \<and> (distinct (solutionOrder p) \<longrightarrow> distinct (map hintBlockId hs))"
proof (cases "userOrder \<noteq> [] \<and> set userOrder \<subseteq> set (map block_id (blocks p))")
  case True
  with assms
  have "hs = generateHints (ProofValidator p)
               (analyzeSequence (ProofValidator p) userOrder) userOrder"
    by (simp add: validateProof_def Let_def)
  then show ?thesis
    using distinct_generateHints [of "ProofValidator p"]
    by (simp add: length_generateHints)
next
  case False
  have "hs = []"
  proof (cases "userOrder = []")
    case True
    with assms show ?thesis by (simp add: validateProof_def)
  next
    case nonempty: False
    with False have "\<not> set userOrder \<subseteq> set (map block_id (blocks p))" by simp
    with nonempty assms show ?thesis by (simp add: validateProof_def Let_def)
  qed
  then show ?thesis by simp
qed

theorem C6_hint_cap_witness:
  "hints (validateProof (ProofValidator abcd) [''a'', ''b''])
     = Some [blockHint missing_hint
               (''You'' @ [CHR 0x27] @ ''re missing this important step:'')
               \<lparr> block_id = ''c'', latex = ''latex of c'' \<rparr> ''c'',
             blockHint missing_hint ''Consider this step:''
               \<lparr> block_id = ''d'', latex = ''latex of d'' \<rparr> ''d'']
   \<and> distinct (solutionOrder abcd)
   \<and> length [blockHint missing_hint
               (''You'' @ [CHR 0x27] @ ''re missing this important step:'')
               \<lparr> block_id = ''c'', latex = ''latex of c'' \<rparr> ''c'',
             blockHint missing_hint ''Consider this step:''
               \<lparr> block_id = ''d'', latex = ''latex of d'' \<rparr> ''d''] \<le> 3
   \<and> distinct (map hintBlockId
        [blockHint missing_hint
               (''You'' @ [CHR 0x27] @ ''re missing this important step:'')
               \<lparr> block_id = ''c'', latex = ''latex of c'' \<rparr> ''c'',
             blockHint missing_hint ''Consider this step:''
               \<lparr> block_id = ''d'', latex = ''latex of d'' \<rparr> ''d''])"
proof -
  have h: "hints (validateProof (ProofValidator abcd) [''a'', ''b''])
     = Some [blockHint missing_hint
               (''You'' @ [CHR 0x27] @ ''re missing this important step:'')
               \<lparr> block_id = ''c'', latex = ''latex of c'' \<rparr> ''c'',
             blockHint missing_hint ''Consider this step:''
               \<lparr> block_id = ''d'', latex = ''latex of d'' \<rparr> ''d'']"
    by code_simp
  have d: "distinct (solutionOrder abcd)"
    by (simp add: abcd_def puzzle_of_def)
  from C6_hint_cap [OF h] h d show ?thesis by blast
qed

text \<open>
  The hypothesis is needed. A puzzle with the solution order \<open>[a, b, c, c]\<close> does not
  satisfy the invariant of puzzles, but the constructor takes it: the order \<open>[a]\<close>
  gets three missing hints, the last two both about \<open>c\<close>.
\<close>

lemma hints_for_repeated_solution_id:
  "map_option (map hintBlockId) (hints (validateProof (ProofValidator duplicate_puzzle) [''a'']))
     = Some [Some ''b'', Some ''c'', Some ''c'']
   \<and> map_option (map hint_type) (hints (validateProof (ProofValidator duplicate_puzzle) [''a'']))
     = Some [missing_hint, missing_hint, missing_hint]"
  by code_simp

end
